theory Spec2Isabelle
  imports Main
begin

section \<open>Iron & Copper core mechanics: dice, skill checks, attributes\<close>

text \<open>
  The embedding follows \<^verbatim>\<open>src/ironcopper/core.py\<close> and
  \<^verbatim>\<open>src/ironcopper/core/attributes.py\<close>. Python integers are \<^typ>\<open>int\<close>.
  Every function that touches the module-level random generator takes the generator
  state and returns the new one. A Python exception is the \<open>Inl\<close> side of a sum.

  The trace printing guarded by \<^verbatim>\<open>verboseRolls\<close> and
  \<^verbatim>\<open>verboseAttributeChecks\<close> only writes to standard output: it reads no
  generator state and changes no returned value, and it is left out of the model.
\<close>

subsection \<open>The random source\<close>

text \<open>
  Python's \<^verbatim>\<open>random\<close> module is a library, not code of this repository. Its generator
  is modelled by the sequence of raw values it is going to produce (\<open>tape\<close>) and the
  number of values already consumed (\<open>pos\<close>). \<^verbatim>\<open>random.randint(a, b)\<close> consumes one
  raw value and maps it into the closed range \<open>[a, b]\<close>; it raises \<^verbatim>\<open>ValueError\<close> on
  an empty range, as the library does.
\<close>

datatype error = ValueError

record rng =
  tape :: "nat \<Rightarrow> nat"
  pos :: nat

definition randint :: "int \<Rightarrow> int \<Rightarrow> rng \<Rightarrow> error + (int \<times> rng)" where
  "randint a b s =
     (if a > b then Inl ValueError
      else Inr (a + int (tape s (pos s) mod nat (b - a + 1)), s\<lparr>pos := pos s + 1\<rparr>))"

text \<open>
  \<^verbatim>\<open>setSeed = random.seed\<close>: seeding with an integer replaces the whole generator state
  by one that depends on the seed alone. The expansion of a seed into the generator's
  output sequence belongs to the library and is the parameter \<open>seeding\<close>.
\<close>

definition setSeed :: "(int \<Rightarrow> nat \<Rightarrow> nat) \<Rightarrow> int \<Rightarrow> rng \<Rightarrow> rng" where
  "setSeed seeding seed s = \<lparr>tape = seeding seed, pos = 0\<rparr>"

text \<open>
  The list comprehension \<^verbatim>\<open>[random.randint(a, b) for _ in range(n)]\<close>, for the
  number \<open>n\<close> of iterations of \<^verbatim>\<open>range\<close> (none when its argument is not positive).
\<close>

fun randints :: "int \<Rightarrow> int \<Rightarrow> nat \<Rightarrow> rng \<Rightarrow> error + (int list \<times> rng)" where
  "randints a b 0 s = Inr ([], s)"
| "randints a b (Suc n) s =
     (case randint a b s of
        Inl e \<Rightarrow> Inl e
      | Inr (r, s') \<Rightarrow>
          (case randints a b n s' of
             Inl e \<Rightarrow> Inl e
           | Inr (rs, s'') \<Rightarrow> Inr (r # rs, s'')))"

text \<open>Python's built-in \<^verbatim>\<open>max\<close> and \<^verbatim>\<open>min\<close> on a list: \<^verbatim>\<open>ValueError\<close> when it is empty.\<close>

fun py_max :: "int list \<Rightarrow> error + int" where
  "py_max [] = Inl ValueError"
| "py_max (x # xs) = Inr (fold max xs x)"

fun py_min :: "int list \<Rightarrow> error + int" where
  "py_min [] = Inl ValueError"
| "py_min (x # xs) = Inr (fold min xs x)"

subsection \<open>Dice\<close>

definition d20 :: "int \<Rightarrow> rng \<Rightarrow> error + (int \<times> rng)" where
  "d20 adv s =
     (case randints 1 20 (nat (\<bar>adv\<bar> + 1)) s of
        Inl e \<Rightarrow> Inl e
      | Inr (rolls, s') \<Rightarrow>
          (case (if adv > 0 then py_max rolls else py_min rolls) of
             Inl e \<Rightarrow> Inl e
           | Inr result \<Rightarrow> Inr (result, s')))"

definition d6 :: "int \<Rightarrow> bool \<Rightarrow> rng \<Rightarrow> error + (int \<times> rng)" where
  "d6 count critical s =
     (case randints 1 6 (nat count) s of
        Inl e \<Rightarrow> Inl e
      | Inr (rolls, s') \<Rightarrow>
          Inr (if critical then sum_list rolls + count * 6 else sum_list rolls, s'))"

subsection \<open>Skill checks\<close>

datatype Outcome = CriticalFail | Fail | NearFail | Success | CriticalSuccess

definition check :: "int \<Rightarrow> int \<Rightarrow> rng \<Rightarrow> error + (Outcome \<times> rng)" where
  "check threshold adv s =
     (case d20 adv s of
        Inl e \<Rightarrow> Inl e
      | Inr (roll, s') \<Rightarrow>
          Inr (if roll = 1 then CriticalFail
               else if roll = 20 then CriticalSuccess
               else if roll < threshold then Fail
               else if roll > threshold then Success
               else NearFail, s'))"

subsection \<open>Facts about the dice needed to define the extended check\<close>

lemma randint_ok:
  assumes "a \<le> b"
  shows "\<exists>r. randint a b s = Inr (r, s\<lparr>pos := pos s + 1\<rparr>) \<and> a \<le> r \<and> r \<le> b"
proof -
  let ?m = "nat (b - a + 1)"
  have m: "0 < ?m" using assms by simp
  have "tape s (pos s) mod ?m < ?m" using m by simp
  then have "int (tape s (pos s) mod ?m) \<le> b - a" by linarith
  then show ?thesis using assms by (simp add: randint_def)
qed

lemma randints_ok:
  assumes "a \<le> b"
  shows "\<exists>rs. randints a b n s = Inr (rs, s\<lparr>pos := pos s + n\<rparr>)
           \<and> length rs = n \<and> (\<forall>r \<in> set rs. a \<le> r \<and> r \<le> b)"
proof (induction n arbitrary: s)
  case 0
  show ?case by simp
next
  case (Suc n)
  obtain r where r: "randint a b s = Inr (r, s\<lparr>pos := pos s + 1\<rparr>)" "a \<le> r" "r \<le> b"
    using randint_ok [OF assms] by blast
  obtain rs where rs:
    "randints a b n (s\<lparr>pos := pos s + 1\<rparr>) = Inr (rs, s\<lparr>pos := pos s + 1 + n\<rparr>)"
    "length rs = n" "\<forall>r \<in> set rs. a \<le> r \<and> r \<le> b"
    using Suc.IH [of "s\<lparr>pos := pos s + 1\<rparr>"] by auto
  show ?case using r rs by simp
qed

lemma py_max_Max: "xs \<noteq> [] \<Longrightarrow> py_max xs = Inr (Max (set xs))"
proof (cases xs)
  case Nil
  assume "xs \<noteq> []"
  with Nil show ?thesis by simp
next
  case (Cons x ys)
  have "fold max ys x = Max (set (x # ys))" by (rule Max.set_eq_fold [symmetric])
  with Cons show ?thesis by simp
qed

lemma py_min_Min: "xs \<noteq> [] \<Longrightarrow> py_min xs = Inr (Min (set xs))"
proof (cases xs)
  case Nil
  assume "xs \<noteq> []"
  with Nil show ?thesis by simp
next
  case (Cons x ys)
  have "fold min ys x = Min (set (x # ys))" by (rule Min.set_eq_fold [symmetric])
  with Cons show ?thesis by simp
qed

lemma d20_ok:
  "\<exists>rolls. randints 1 20 (nat (\<bar>adv\<bar> + 1)) s = Inr (rolls, s\<lparr>pos := pos s + nat (\<bar>adv\<bar> + 1)\<rparr>)
     \<and> length rolls = nat (\<bar>adv\<bar> + 1) \<and> (\<forall>r \<in> set rolls. 1 \<le> r \<and> r \<le> 20)
     \<and> d20 adv s = Inr (if adv > 0 then Max (set rolls) else Min (set rolls),
                        s\<lparr>pos := pos s + nat (\<bar>adv\<bar> + 1)\<rparr>)"
proof -
  obtain rolls where rolls:
    "randints 1 20 (nat (\<bar>adv\<bar> + 1)) s = Inr (rolls, s\<lparr>pos := pos s + nat (\<bar>adv\<bar> + 1)\<rparr>)"
    "length rolls = nat (\<bar>adv\<bar> + 1)" "\<forall>r \<in> set rolls. 1 \<le> r \<and> r \<le> 20"
    using randints_ok [of 1 20 "nat (\<bar>adv\<bar> + 1)" s] by auto
  have ne: "rolls \<noteq> []" using rolls(2) by auto
  have "d20 adv s = Inr (if adv > 0 then Max (set rolls) else Min (set rolls),
                        s\<lparr>pos := pos s + nat (\<bar>adv\<bar> + 1)\<rparr>)"
    using rolls(1) ne by (simp add: d20_def py_max_Max py_min_Min)
  then show ?thesis using rolls by blast
qed

lemma d20_range:
  "\<exists>r. d20 adv s = Inr (r, s\<lparr>pos := pos s + nat (\<bar>adv\<bar> + 1)\<rparr>) \<and> 1 \<le> r \<and> r \<le> 20"
proof -
  obtain rolls where rolls:
    "length rolls = nat (\<bar>adv\<bar> + 1)" "\<forall>r \<in> set rolls. 1 \<le> r \<and> r \<le> 20"
    "d20 adv s = Inr (if adv > 0 then Max (set rolls) else Min (set rolls),
                        s\<lparr>pos := pos s + nat (\<bar>adv\<bar> + 1)\<rparr>)"
    using d20_ok [of adv s] by blast
  have ne: "set rolls \<noteq> {}" using rolls(1) by auto
  have "Max (set rolls) \<in> set rolls" "Min (set rolls) \<in> set rolls"
    using ne by (simp_all add: Max_in Min_in)
  then show ?thesis using rolls(2,3) by auto
qed

lemma d20_Inr_ge_1: "d20 adv s = Inr (r, s') \<Longrightarrow> 1 \<le> r"
  using d20_range [of adv s] by auto

subsection \<open>Extended skill checks\<close>

text \<open>
  The \<^verbatim>\<open>while\<close> loop of \<^verbatim>\<open>extendedCheck\<close>, on its local variables. The test
  \<^verbatim>\<open>maxRolls and rollCount >= maxRolls\<close> is Python truthiness: false for \<^verbatim>\<open>None\<close> and
  for \<open>0\<close>.
\<close>

function extendedCheck_loop ::
  "int \<Rightarrow> int option \<Rightarrow> int \<Rightarrow> int \<Rightarrow> rng \<Rightarrow> error + ((Outcome \<times> int) \<times> rng)" where
  "extendedCheck_loop threshold maxRolls accumulator rollCount s =
     (if accumulator < threshold then
        (if (case maxRolls of None \<Rightarrow> False | Some m \<Rightarrow> m \<noteq> 0 \<and> rollCount \<ge> m)
         then Inr ((Fail, the maxRolls), s)
         else (case d20 0 s of
                 Inl e \<Rightarrow> Inl e
               | Inr (r, s') \<Rightarrow>
                   extendedCheck_loop threshold maxRolls (accumulator + r) (rollCount + 1) s'))
      else Inr ((Success, rollCount), s))"
  by pat_completeness auto
termination
proof (relation "measure (\<lambda>(threshold, maxRolls, accumulator, rollCount, s).
                            nat (threshold - accumulator))")
  show "wf (measure (\<lambda>(threshold, maxRolls, accumulator, rollCount, s).
                            nat (threshold - accumulator)))"
    by simp
next
  fix threshold :: int and maxRolls :: "int option" and accumulator rollCount :: int
    and s :: rng and x2 :: "int \<times> rng" and r :: int and s' :: rng
  assume "accumulator < threshold" and "d20 0 s = Inr x2" and "(r, s') = x2"
  then have "1 \<le> r" using d20_Inr_ge_1 [of 0 s r s'] by simp
  then show "((threshold, maxRolls, accumulator + r, rollCount + 1, s'),
              (threshold, maxRolls, accumulator, rollCount, s))
             \<in> measure (\<lambda>(threshold, maxRolls, accumulator, rollCount, s).
                            nat (threshold - accumulator))"
    using \<open>accumulator < threshold\<close> by simp
qed

definition extendedCheck :: "int \<Rightarrow> int option \<Rightarrow> rng \<Rightarrow> error + ((Outcome \<times> int) \<times> rng)" where
  "extendedCheck threshold maxRolls s = extendedCheck_loop threshold maxRolls 0 0 s"

declare extendedCheck_loop.simps [simp del]

subsection \<open>Attributes\<close>

text \<open>
  \<^verbatim>\<open>attributes.py\<close> imports \<^verbatim>\<open>check\<close> and \<^verbatim>\<open>extendedCheck\<close> from its sibling module
  \<^verbatim>\<open>checks\<close>; they are the functions of those names defined above. The six subclasses
  only fix the label.
\<close>

record Attribute =
  score :: int
  label :: string

definition modifier :: "Attribute \<Rightarrow> int" where
  "modifier self = score self - 10"

definition Attribute_check :: "Attribute \<Rightarrow> int \<Rightarrow> int \<Rightarrow> rng \<Rightarrow> error + (Outcome \<times> rng)" where
  "Attribute_check self threshold adv s = check (threshold - modifier self) adv s"

definition Attribute_extendedCheck ::
  "Attribute \<Rightarrow> int \<Rightarrow> int option \<Rightarrow> rng \<Rightarrow> error + ((Outcome \<times> int) \<times> rng)" where
  "Attribute_extendedCheck self threshold maxRolls s =
     extendedCheck (threshold - modifier self) maxRolls s"

definition Strength :: "int \<Rightarrow> Attribute" where
  "Strength sc = \<lparr>score = sc, label = ''Str''\<rparr>"

definition Dexterity :: "int \<Rightarrow> Attribute" where
  "Dexterity sc = \<lparr>score = sc, label = ''Dex''\<rparr>"

definition Constitution :: "int \<Rightarrow> Attribute" where
  "Constitution sc = \<lparr>score = sc, label = ''Con''\<rparr>"

definition Intelligence :: "int \<Rightarrow> Attribute" where
  "Intelligence sc = \<lparr>score = sc, label = ''Int''\<rparr>"

definition Wisdom :: "int \<Rightarrow> Attribute" where
  "Wisdom sc = \<lparr>score = sc, label = ''Wis''\<rparr>"

definition Charisma :: "int \<Rightarrow> Attribute" where
  "Charisma sc = \<lparr>score = sc, label = ''Cha''\<rparr>"

subsection \<open>Notions used to state the properties\<close>

text \<open>
  The results of the next \<open>k\<close> plain calls \<^verbatim>\<open>d20()\<close> made one after the other from
  generator state \<open>s\<close>: the draws an extended check accumulates.
\<close>

fun d20_draws :: "nat \<Rightarrow> rng \<Rightarrow> int list" where
  "d20_draws 0 s = []"
| "d20_draws (Suc k) s =
     (case d20 0 s of Inl e \<Rightarrow> [] | Inr (r, s') \<Rightarrow> r # d20_draws k s')"

text \<open>
  A session of calls to the public functions, run in order on the generator; an
  exception ends the session, as it would in Python.
\<close>

datatype call =
    CallD20 int
  | CallD6 int bool
  | CallCheck int int
  | CallExtendedCheck int "int option"

datatype returned =
    Roll int
  | Checked Outcome
  | ExtendedChecked Outcome int

fun perform :: "call \<Rightarrow> rng \<Rightarrow> error + (returned \<times> rng)" where
  "perform (CallD20 adv) s =
     (case d20 adv s of Inl e \<Rightarrow> Inl e | Inr (r, s') \<Rightarrow> Inr (Roll r, s'))"
| "perform (CallD6 count critical) s =
     (case d6 count critical s of Inl e \<Rightarrow> Inl e | Inr (r, s') \<Rightarrow> Inr (Roll r, s'))"
| "perform (CallCheck threshold adv) s =
     (case check threshold adv s of Inl e \<Rightarrow> Inl e | Inr (out, s') \<Rightarrow> Inr (Checked out, s'))"
| "perform (CallExtendedCheck threshold maxRolls) s =
     (case extendedCheck threshold maxRolls s of
        Inl e \<Rightarrow> Inl e
      | Inr ((out, n), s') \<Rightarrow> Inr (ExtendedChecked out n, s'))"

fun perform_all :: "call list \<Rightarrow> rng \<Rightarrow> error + (returned list \<times> rng)" where
  "perform_all [] s = Inr ([], s)"
| "perform_all (c # cs) s =
     (case perform c s of
        Inl e \<Rightarrow> Inl e
      | Inr (r, s') \<Rightarrow>
          (case perform_all cs s' of
             Inl e \<Rightarrow> Inl e
           | Inr (rs, s'') \<Rightarrow> Inr (r # rs, s'')))"

text \<open>
  A concrete generator for evaluating the functions: its raw values repeat with
  period six, so that its D20 draws are 12, 10, 15, 1, 20, 4, 12, ...
\<close>

definition example_tape :: "nat \<Rightarrow> nat" where
  "example_tape i = [11, 9, 14, 0, 19, 3] ! (i mod 6)"

definition rng_at :: "nat \<Rightarrow> rng" where
  "rng_at p = \<lparr>tape = example_tape, pos = p\<rparr>"

definition example_seeding :: "int \<Rightarrow> nat \<Rightarrow> nat" where
  "example_seeding seed = (\<lambda>i. example_tape (i + nat \<bar>seed\<bar>))"

subsection \<open>Evaluation on the concrete generator\<close>

lemma tape_vals:
  "example_tape 0 = 11"
  "example_tape (Suc 0) = 9"
  "example_tape (Suc (Suc 0)) = 14"
  "example_tape (Suc (Suc (Suc 0))) = 0"
  "example_tape (Suc (Suc (Suc (Suc 0)))) = 19"
  "example_tape (Suc (Suc (Suc (Suc (Suc 0))))) = 3"
  by (simp_all add: example_tape_def mod_Suc)

lemma rng_at_eq: "(rng_at p = rng_at q) = (p = q)"
  by (simp add: rng_at_def)

lemma randint_at:
  "a \<le> b \<Longrightarrow>
   randint a b (rng_at p) = Inr (a + int (example_tape p mod nat (b - a + 1)), rng_at (Suc p))"
  by (simp add: randint_def rng_at_def)

lemma randints_numeral:
  "randints a b (numeral k) s =
     (case randint a b s of
        Inl e \<Rightarrow> Inl e
      | Inr (r, s') \<Rightarrow>
          (case randints a b (pred_numeral k) s' of
             Inl e \<Rightarrow> Inl e
           | Inr (rs, s'') \<Rightarrow> Inr (r # rs, s'')))"
  by (simp add: numeral_eq_Suc)

lemmas eval_rules = randint_at randints_numeral tape_vals rng_at_eq

subsection \<open>Facts about the loop of the extended check\<close>

lemma d20_plain:
  "\<exists>r. d20 0 s = Inr (r, s\<lparr>pos := pos s + 1\<rparr>) \<and> 1 \<le> r \<and> r \<le> 20"
  using d20_range [of 0 s] by simp

lemma d20_draws_nonneg: "0 \<le> sum_list (d20_draws k s)"
proof (induction k arbitrary: s)
  case 0
  show ?case by simp
next
  case (Suc k)
  obtain r where r: "d20 0 s = Inr (r, s\<lparr>pos := pos s + 1\<rparr>)" "1 \<le> r"
    using d20_plain [of s] by blast
  have "0 \<le> sum_list (d20_draws k (s\<lparr>pos := pos s + 1\<rparr>))" by (rule Suc.IH)
  with r show ?case by simp
qed

lemma extendedCheck_loop_reached:
  "\<not> accumulator < threshold \<Longrightarrow>
   extendedCheck_loop threshold maxRolls accumulator rollCount s = Inr ((Success, rollCount), s)"
  by (simp add: extendedCheck_loop.simps)

lemma extendedCheck_loop_exhausted:
  "accumulator < threshold \<Longrightarrow> m \<noteq> 0 \<Longrightarrow> m \<le> rollCount \<Longrightarrow>
   extendedCheck_loop threshold (Some m) accumulator rollCount s = Inr ((Fail, m), s)"
  by (simp add: extendedCheck_loop.simps)

lemma extendedCheck_loop_roll:
  "accumulator < threshold \<Longrightarrow>
   \<not> (case maxRolls of None \<Rightarrow> False | Some m \<Rightarrow> m \<noteq> 0 \<and> m \<le> rollCount) \<Longrightarrow>
   d20 0 s = Inr (r, s') \<Longrightarrow>
   extendedCheck_loop threshold maxRolls accumulator rollCount s =
   extendedCheck_loop threshold maxRolls (accumulator + r) (rollCount + 1) s'"
  by (subst extendedCheck_loop.simps) simp

lemma extendedCheck_loop_total:
  "\<exists>out n s'. extendedCheck_loop threshold maxRolls accumulator rollCount s = Inr ((out, n), s')"
proof (induction threshold maxRolls accumulator rollCount s rule: extendedCheck_loop.induct)
  case (1 threshold maxRolls accumulator rollCount s)
  let ?stop = "case maxRolls of None \<Rightarrow> False | Some m \<Rightarrow> m \<noteq> 0 \<and> m \<le> rollCount"
  show ?case
  proof (cases "accumulator < threshold")
    case False
    then show ?thesis by (simp add: extendedCheck_loop_reached)
  next
    case True
    show ?thesis
    proof (cases ?stop)
      case True
      with \<open>accumulator < threshold\<close> show ?thesis
        by (simp add: extendedCheck_loop.simps)
    next
      case False
      obtain r where r: "d20 0 s = Inr (r, s\<lparr>pos := pos s + 1\<rparr>)"
        using d20_plain [of s] by blast
      have "\<exists>out n s'. extendedCheck_loop threshold maxRolls (accumulator + r) (rollCount + 1)
                          (s\<lparr>pos := pos s + 1\<rparr>) = Inr ((out, n), s')"
        using "1.IH" [OF True False r refl] .
      then show ?thesis
        using extendedCheck_loop_roll [OF True False r] by simp
    qed
  qed
qed

lemma extendedCheck_loop_unlimited:
  "\<exists>k. extendedCheck_loop threshold None accumulator rollCount s
          = Inr ((Success, rollCount + int k), s\<lparr>pos := pos s + k\<rparr>)
       \<and> threshold \<le> accumulator + sum_list (d20_draws k s)
       \<and> (if accumulator < threshold
          then 0 < k \<and> accumulator + sum_list (d20_draws (k - 1) s) < threshold
          else k = 0)"
proof (induction threshold "None :: int option" accumulator rollCount s
        rule: extendedCheck_loop.induct)
  case (1 threshold accumulator rollCount s)
  show ?case
  proof (cases "accumulator < threshold")
    case False
    then show ?thesis by (simp add: extendedCheck_loop_reached)
  next
    case True
    have go: "\<not> (case (None :: int option) of None \<Rightarrow> False | Some m \<Rightarrow> m \<noteq> 0 \<and> m \<le> rollCount)"
      by simp
    obtain r where r: "d20 0 s = Inr (r, s\<lparr>pos := pos s + 1\<rparr>)" "1 \<le> r"
      using d20_plain [of s] by blast
    let ?s = "s\<lparr>pos := pos s + 1\<rparr>"
    obtain k where k:
      "extendedCheck_loop threshold None (accumulator + r) (rollCount + 1) ?s
         = Inr ((Success, rollCount + 1 + int k), ?s\<lparr>pos := pos ?s + k\<rparr>)"
      "threshold \<le> accumulator + r + sum_list (d20_draws k ?s)"
      "if accumulator + r < threshold
       then 0 < k \<and> accumulator + r + sum_list (d20_draws (k - 1) ?s) < threshold
       else k = 0"
      using "1.hyps" [OF True go r(1) refl] by blast
    have step: "extendedCheck_loop threshold None accumulator rollCount s
                = Inr ((Success, rollCount + int (Suc k)), s\<lparr>pos := pos s + Suc k\<rparr>)"
      using extendedCheck_loop_roll [OF True go r(1)] k(1) by simp
    have upper: "threshold \<le> accumulator + sum_list (d20_draws (Suc k) s)"
      using k(2) r(1) by simp
    have lower: "accumulator + sum_list (d20_draws k s) < threshold"
    proof (cases "accumulator + r < threshold")
      case False
      with k(3) have "k = 0" by simp
      with True show ?thesis by simp
    next
      case True
      with k(3) have pos: "0 < k"
        and less: "accumulator + r + sum_list (d20_draws (k - 1) ?s) < threshold"
        by simp_all
      from pos obtain j where j: "k = Suc j" by (cases k) simp_all
      with less r(1) show ?thesis by simp
    qed
    show ?thesis
      using True step upper lower by (intro exI [of _ "Suc k"]) simp
  qed
qed

lemma extendedCheck_loop_budget:
  assumes "0 < m" and "rollCount \<le> m"
  shows "\<exists>out k. extendedCheck_loop threshold (Some m) accumulator rollCount s
            = Inr ((out, if out = Fail then m else rollCount + int k), s\<lparr>pos := pos s + k\<rparr>)
         \<and> rollCount + int k \<le> m
         \<and> (out = Fail \<or> out = Success)
         \<and> ((out = Fail) = (accumulator + sum_list (d20_draws (nat (m - rollCount)) s) < threshold))
         \<and> (out = Fail \<longrightarrow> rollCount + int k = m)
         \<and> (out = Success \<longrightarrow> threshold \<le> accumulator + sum_list (d20_draws k s))
         \<and> (if accumulator < threshold \<and> rollCount < m
            then 0 < k \<and> accumulator + sum_list (d20_draws (k - 1) s) < threshold
            else k = 0)"
  using assms
proof (induction threshold "Some m" accumulator rollCount s rule: extendedCheck_loop.induct)
  case (1 threshold accumulator rollCount s)
  show ?case
  proof (cases "accumulator < threshold")
    case False
    have "0 \<le> sum_list (d20_draws (nat (m - rollCount)) s)" by (rule d20_draws_nonneg)
    with False have "\<not> accumulator + sum_list (d20_draws (nat (m - rollCount)) s) < threshold"
      by simp
    with False "1.prems" show ?thesis
      by (intro exI [of _ Success] exI [of _ 0]) (simp add: extendedCheck_loop_reached)
  next
    case True
    show ?thesis
    proof (cases "m \<le> rollCount")
      case True
      with "1.prems" have "rollCount = m" by simp
      with \<open>accumulator < threshold\<close> "1.prems" show ?thesis
        by (intro exI [of _ Fail] exI [of _ 0]) (simp add: extendedCheck_loop_exhausted)
    next
      case False
      then have go: "\<not> (case Some m of None \<Rightarrow> False | Some m \<Rightarrow> m \<noteq> 0 \<and> m \<le> rollCount)"
        by simp
      obtain r where r: "d20 0 s = Inr (r, s\<lparr>pos := pos s + 1\<rparr>)" "1 \<le> r"
        using d20_plain [of s] by blast
      let ?s = "s\<lparr>pos := pos s + 1\<rparr>"
      from False have le: "rollCount + 1 \<le> m" by simp
      obtain out k where res:
        "extendedCheck_loop threshold (Some m) (accumulator + r) (rollCount + 1) ?s
           = Inr ((out, if out = Fail then m else rollCount + 1 + int k), ?s\<lparr>pos := pos ?s + k\<rparr>)"
        "rollCount + 1 + int k \<le> m"
        "out = Fail \<or> out = Success"
        "(out = Fail) = (accumulator + r + sum_list (d20_draws (nat (m - (rollCount + 1))) ?s)
                          < threshold)"
        "out = Fail \<longrightarrow> rollCount + 1 + int k = m"
        "out = Success \<longrightarrow> threshold \<le> accumulator + r + sum_list (d20_draws k ?s)"
        "if accumulator + r < threshold \<and> rollCount + 1 < m
         then 0 < k \<and> accumulator + r + sum_list (d20_draws (k - 1) ?s) < threshold
         else k = 0"
        using "1.hyps" [OF True go r(1) refl "1.prems"(1) le] by blast
      have unfold: "nat (m - rollCount) = Suc (nat (m - (rollCount + 1)))"
        using False by simp
      have draws: "sum_list (d20_draws (nat (m - rollCount)) s)
                   = r + sum_list (d20_draws (nat (m - (rollCount + 1))) ?s)"
        using r(1) by (simp add: unfold)
      have step: "extendedCheck_loop threshold (Some m) accumulator rollCount s
                  = Inr ((out, if out = Fail then m else rollCount + int (Suc k)),
                         s\<lparr>pos := pos s + Suc k\<rparr>)"
        using extendedCheck_loop_roll [OF True go r(1)] res(1) by (simp add: add.assoc)
      have bound: "rollCount + int (Suc k) \<le> m" using res(2) by simp
      have fail_iff: "(out = Fail)
                      = (accumulator + sum_list (d20_draws (nat (m - rollCount)) s) < threshold)"
        using res(4) draws by (simp add: add.assoc)
      have used: "out = Fail \<longrightarrow> rollCount + int (Suc k) = m" using res(5) by auto
      have reached: "out = Success \<longrightarrow> threshold \<le> accumulator + sum_list (d20_draws (Suc k) s)"
        using res(6) r(1) by (auto simp: add.assoc)
      have lower: "accumulator + sum_list (d20_draws k s) < threshold"
      proof (cases k)
        case 0
        with True show ?thesis by simp
      next
        case (Suc j)
        with res(7) have "accumulator + r + sum_list (d20_draws j ?s) < threshold"
          by (simp split: if_splits)
        with Suc r(1) show ?thesis by simp
      qed
      have least: "if accumulator < threshold \<and> rollCount < m
            then 0 < Suc k \<and> accumulator + sum_list (d20_draws (Suc k - 1) s) < threshold
            else Suc k = 0"
        using True False lower by simp
      show ?thesis
        using step bound res(3) fail_iff used reached least
        by (intro exI [of _ out] exI [of _ "Suc k"] conjI)
    qed
  qed
qed

lemma d6_total: "\<exists>v s'. d6 count critical s = Inr (v, s')"
proof -
  obtain rolls where "randints 1 6 (nat count) s = Inr (rolls, s\<lparr>pos := pos s + nat count\<rparr>)"
    using randints_ok [of 1 6 "nat count" s] by auto
  then show ?thesis by (simp add: d6_def)
qed

lemma d6_no_dice:
  "count \<le> 0 \<Longrightarrow> d6 count critical s = Inr (if critical then count * 6 else 0, s)"
  by (simp add: d6_def)

lemma check_total: "\<exists>out s'. check threshold adv s = Inr (out, s')"
proof -
  obtain r s' where "d20 adv s = Inr (r, s')"
    using d20_range [of adv s] by blast
  then show ?thesis by (simp add: check_def)
qed

lemma perform_total: "\<exists>r s'. perform c s = Inr (r, s')"
proof (cases c)
  case (CallD20 adv)
  obtain r s' where "d20 adv s = Inr (r, s')"
    using d20_range [of adv s] by blast
  with CallD20 show ?thesis by simp
next
  case (CallD6 count critical)
  obtain v s' where "d6 count critical s = Inr (v, s')"
    using d6_total [of count critical s] by blast
  with CallD6 show ?thesis by simp
next
  case (CallCheck threshold adv)
  obtain out s' where "check threshold adv s = Inr (out, s')"
    using check_total [of threshold adv s] by blast
  with CallCheck show ?thesis by simp
next
  case (CallExtendedCheck threshold maxRolls)
  obtain out n s' where "extendedCheck threshold maxRolls s = Inr ((out, n), s')"
    using extendedCheck_loop_total [of threshold maxRolls 0 0 s]
    by (auto simp: extendedCheck_def)
  with CallExtendedCheck show ?thesis by simp
qed

lemma perform_all_total: "\<exists>rs s'. perform_all cs s = Inr (rs, s')"
proof (induction cs arbitrary: s)
  case Nil
  show ?case by simp
next
  case (Cons c cs)
  obtain r s1 where r: "perform c s = Inr (r, s1)"
    using perform_total [of c s] by blast
  obtain rs s2 where "perform_all cs s1 = Inr (rs, s2)"
    using Cons.IH [of s1] by blast
  with r show ?case by simp
qed

lemma setSeed_at: "setSeed example_seeding 0 s = rng_at 0"
  by (simp add: setSeed_def example_seeding_def rng_at_def)

section \<open>The claims\<close>

text \<open>
  C1. For every threshold and advantage, \<open>check\<close> returns \<open>CriticalFail\<close> exactly when the
  D20 roll after the advantage/disadvantage reduction is 1 and \<open>CriticalSuccess\<close> exactly
  when it is 20, whatever the threshold; for a reduced roll strictly between 1 and 20 it
  returns \<open>Fail\<close> when the roll is below the threshold, \<open>Success\<close> when it is above and
  \<open>NearFail\<close> when it equals it. The reduced roll always lies in \<open>[1, 20]\<close>, so the
  cases are exhaustive.
\<close>

theorem check_classifies_reduced_roll:
  "\<exists>roll out s'. d20 adv s = Inr (roll, s') \<and> check threshold adv s = Inr (out, s')
     \<and> 1 \<le> roll \<and> roll \<le> 20
     \<and> ((out = CriticalFail) = (roll = 1))
     \<and> ((out = CriticalSuccess) = (roll = 20))
     \<and> (1 < roll \<and> roll < 20 \<longrightarrow>
           (roll < threshold \<longrightarrow> out = Fail)
         \<and> (threshold < roll \<longrightarrow> out = Success)
         \<and> (roll = threshold \<longrightarrow> out = NearFail))"
proof -
  obtain roll s' where roll: "d20 adv s = Inr (roll, s')" "1 \<le> roll" "roll \<le> 20"
    using d20_range [of adv s] by blast
  define out where "out =
    (if roll = 1 then CriticalFail
     else if roll = 20 then CriticalSuccess
     else if roll < threshold then Fail
     else if roll > threshold then Success
     else NearFail)"
  have ret: "check threshold adv s = Inr (out, s')"
    using roll(1) by (simp add: check_def out_def)
  have cf: "(out = CriticalFail) = (roll = 1)" by (simp add: out_def)
  have cs: "(out = CriticalSuccess) = (roll = 20)" by (simp add: out_def)
  have mid: "1 < roll \<and> roll < 20 \<longrightarrow>
           (roll < threshold \<longrightarrow> out = Fail)
         \<and> (threshold < roll \<longrightarrow> out = Success)
         \<and> (roll = threshold \<longrightarrow> out = NearFail)"
    by (simp add: out_def)
  show ?thesis using roll ret cf cs mid by blast
qed

theorem check_classifies_reduced_roll_witness:
  "d20 0 (rng_at 0) = Inr (12, rng_at 1) \<and> check 10 0 (rng_at 0) = Inr (Success, rng_at 1)"
proof -
  have ev: "d20 0 (rng_at 0) = Inr (12, rng_at 1)"
    by (simp add: d20_def eval_rules)
  obtain roll out s' where h:
    "d20 0 (rng_at 0) = Inr (roll, s')" "check 10 0 (rng_at 0) = Inr (out, s')"
    "1 < roll \<and> roll < 20 \<longrightarrow>
           (roll < 10 \<longrightarrow> out = Fail)
         \<and> (10 < roll \<longrightarrow> out = Success)
         \<and> (roll = 10 \<longrightarrow> out = NearFail)"
    using check_classifies_reduced_roll [where adv = 0 and s = "rng_at 0" and threshold = 10]
    by blast
  from ev h(1) have "roll = 12" and "s' = rng_at 1" by simp_all
  with h(2,3) ev show ?thesis by simp
qed

text \<open>
  C2. For every integer advantage \<open>adv\<close>, \<open>d20 adv\<close> draws exactly \<open>|adv| + 1\<close> values
  from the random source (the generator moves on by that many positions), each in
  \<open>[1, 20]\<close>, and returns their maximum when \<open>adv > 0\<close>, their minimum when \<open>adv < 0\<close>
  and the single draw when \<open>adv = 0\<close>.
\<close>

theorem d20_draws_then_reduces:
  "\<exists>rolls result s'. randints 1 20 (nat (\<bar>adv\<bar> + 1)) s = Inr (rolls, s')
     \<and> d20 adv s = Inr (result, s')
     \<and> s' = s\<lparr>pos := pos s + nat (\<bar>adv\<bar> + 1)\<rparr>
     \<and> int (length rolls) = \<bar>adv\<bar> + 1
     \<and> (\<forall>r \<in> set rolls. 1 \<le> r \<and> r \<le> 20)
     \<and> (0 < adv \<longrightarrow> result = Max (set rolls))
     \<and> (adv < 0 \<longrightarrow> result = Min (set rolls))
     \<and> (adv = 0 \<longrightarrow> rolls = [result])"
proof -
  let ?s = "s\<lparr>pos := pos s + nat (\<bar>adv\<bar> + 1)\<rparr>"
  obtain rolls where rolls:
    "randints 1 20 (nat (\<bar>adv\<bar> + 1)) s = Inr (rolls, ?s)"
    "length rolls = nat (\<bar>adv\<bar> + 1)" "\<forall>r \<in> set rolls. 1 \<le> r \<and> r \<le> 20"
    "d20 adv s = Inr (if adv > 0 then Max (set rolls) else Min (set rolls), ?s)"
    using d20_ok [of adv s] by blast
  define result where "result = (if adv > 0 then Max (set rolls) else Min (set rolls))"
  have len: "int (length rolls) = \<bar>adv\<bar> + 1" using rolls(2) by simp
  have single: "adv = 0 \<longrightarrow> rolls = [result]"
  proof
    assume z: "adv = 0"
    with rolls(2) have "length rolls = 1" by simp
    then obtain x where "rolls = [x]" by (cases rolls) simp_all
    with z show "rolls = [result]" by (simp add: result_def)
  qed
  have mx: "0 < adv \<longrightarrow> result = Max (set rolls)" by (simp add: result_def)
  have mn: "adv < 0 \<longrightarrow> result = Min (set rolls)" by (simp add: result_def)
  have ret: "d20 adv s = Inr (result, ?s)" using rolls(4) by (simp add: result_def)
  show ?thesis using rolls(1,3) ret len mx mn single by blast
qed

theorem d20_draws_then_reduces_witness:
  "randints 1 20 3 (rng_at 0) = Inr ([12, 10, 15], rng_at 3)
   \<and> d20 2 (rng_at 0) = Inr (15, rng_at 3)"
proof -
  have ev: "randints 1 20 3 (rng_at 0) = Inr ([12, 10, 15], rng_at 3)"
    by (simp add: eval_rules)
  obtain rolls result s' where h:
    "randints 1 20 (nat (\<bar>2\<bar> + 1)) (rng_at 0) = Inr (rolls, s')"
    "d20 2 (rng_at 0) = Inr (result, s')"
    "(0::int) < 2 \<longrightarrow> result = Max (set rolls)"
    using d20_draws_then_reduces [where adv = 2 and s = "rng_at 0"] by blast
  from h(1) ev have "rolls = [12, 10, 15]" and "s' = rng_at 3" by simp_all
  with h(2,3) ev show ?thesis by simp
qed

text \<open>
  C3. For every positive threshold and every supplied positive \<open>maxRolls\<close>,
  \<open>extendedCheck\<close> returns a roll count \<open>n\<close> that never exceeds \<open>maxRolls\<close> and is
  the number of dice it has really drawn (the budget is tested before each draw, so
  at least one and at most \<open>maxRolls\<close> dice are drawn). It returns \<open>Fail\<close> exactly when
  the sum of the \<open>maxRolls\<close> draws of the budget stays below the threshold, and then
  returns the pair \<open>(Fail, maxRolls)\<close>; otherwise the outcome is \<open>Success\<close>, the \<open>n\<close>
  draws made sum to at least the threshold, and in both cases the first \<open>n - 1\<close> draws
  sum to less than the threshold.
\<close>

theorem extendedCheck_within_budget:
  assumes "0 < threshold" and "0 < maxRolls"
  shows "\<exists>out n s'. extendedCheck threshold (Some maxRolls) s = Inr ((out, n), s')
           \<and> 0 < n \<and> n \<le> maxRolls
           \<and> s' = s\<lparr>pos := pos s + nat n\<rparr>
           \<and> (out = Fail \<or> out = Success)
           \<and> ((out = Fail) = (sum_list (d20_draws (nat maxRolls) s) < threshold))
           \<and> (out = Fail \<longrightarrow> n = maxRolls)
           \<and> (out = Success \<longrightarrow> threshold \<le> sum_list (d20_draws (nat n) s))
           \<and> sum_list (d20_draws (nat (n - 1)) s) < threshold"
proof -
  have le: "(0::int) \<le> maxRolls" using assms(2) by simp
  obtain out k where res:
    "extendedCheck_loop threshold (Some maxRolls) 0 0 s
       = Inr ((out, if out = Fail then maxRolls else 0 + int k), s\<lparr>pos := pos s + k\<rparr>)"
    "0 + int k \<le> maxRolls"
    "out = Fail \<or> out = Success"
    "(out = Fail) = (0 + sum_list (d20_draws (nat (maxRolls - 0)) s) < threshold)"
    "out = Fail \<longrightarrow> 0 + int k = maxRolls"
    "out = Success \<longrightarrow> threshold \<le> 0 + sum_list (d20_draws k s)"
    "if 0 < threshold \<and> 0 < maxRolls
     then 0 < k \<and> 0 + sum_list (d20_draws (k - 1) s) < threshold
     else k = 0"
    using extendedCheck_loop_budget [OF assms(2) le, of threshold 0 s] by blast
  from res(7) assms have pos: "0 < k" and below: "sum_list (d20_draws (k - 1) s) < threshold"
    by simp_all
  have n: "(if out = Fail then maxRolls else 0 + int k) = int k"
    using res(5) by simp
  have ret: "extendedCheck threshold (Some maxRolls) s
             = Inr ((out, int k), s\<lparr>pos := pos s + nat (int k)\<rparr>)"
    using res(1) n by (simp add: extendedCheck_def)
  have a: "0 < int k" using pos by simp
  have b: "int k \<le> maxRolls" using res(2) by simp
  have fail_iff: "(out = Fail) = (sum_list (d20_draws (nat maxRolls) s) < threshold)"
    using res(4) by simp
  have count: "out = Fail \<longrightarrow> int k = maxRolls" using res(5) by simp
  have reached: "out = Success \<longrightarrow> threshold \<le> sum_list (d20_draws (nat (int k)) s)"
    using res(6) by simp
  have pred: "nat (int k - 1) = k - 1" by simp
  have least: "sum_list (d20_draws (nat (int k - 1)) s) < threshold"
    using below pred by simp
  show ?thesis
    using ret a b res(3) fail_iff count reached least
    by (intro exI [of _ out] exI [of _ "int k"] exI [of _ "s\<lparr>pos := pos s + nat (int k)\<rparr>"] conjI)
       simp_all
qed

theorem extendedCheck_within_budget_witness:
  "(0::int) < 30 \<and> (0::int) < 2 \<and> d20_draws 2 (rng_at 1) = [10, 15]
   \<and> extendedCheck 30 (Some 2) (rng_at 1) = Inr ((Fail, 2), rng_at 3)"
proof -
  have t: "(0::int) < 30" and m: "(0::int) < 2" by simp_all
  have draws: "d20_draws 2 (rng_at 1) = [10, 15]"
    by (simp add: d20_def eval_rules numeral_2_eq_2)
  obtain out n s' where h:
    "extendedCheck 30 (Some 2) (rng_at 1) = Inr ((out, n), s')"
    "s' = (rng_at 1)\<lparr>pos := pos (rng_at 1) + nat n\<rparr>"
    "(out = Fail) = (sum_list (d20_draws (nat 2) (rng_at 1)) < 30)"
    "out = Fail \<longrightarrow> n = 2"
    using extendedCheck_within_budget [OF t m, of "rng_at 1"] by blast
  from h(3) draws have f: "out = Fail" by simp
  with h(4) have n: "n = 2" by simp
  with h(2) have "s' = rng_at 3" by (simp add: rng_at_def)
  with h(1) f n draws show ?thesis by simp
qed

text \<open>
  C4. For every positive threshold, \<open>extendedCheck\<close> without a roll budget returns (the
  loop is a total function: each draw adds at least 1 to the accumulator) with
  \<open>Success\<close> and a roll count \<open>n\<close> such that the first \<open>n\<close> draws sum to at least the
  threshold while the first \<open>n - 1\<close> draws sum to less; exactly \<open>n\<close> draws are made.
\<close>

theorem extendedCheck_unlimited_succeeds:
  assumes "0 < threshold"
  shows "\<exists>n s'. extendedCheck threshold None s = Inr ((Success, n), s')
           \<and> 0 < n
           \<and> s' = s\<lparr>pos := pos s + nat n\<rparr>
           \<and> threshold \<le> sum_list (d20_draws (nat n) s)
           \<and> sum_list (d20_draws (nat (n - 1)) s) < threshold"
proof -
  obtain k where k:
    "extendedCheck_loop threshold None 0 0 s = Inr ((Success, 0 + int k), s\<lparr>pos := pos s + k\<rparr>)"
    "threshold \<le> 0 + sum_list (d20_draws k s)"
    "if 0 < threshold then 0 < k \<and> 0 + sum_list (d20_draws (k - 1) s) < threshold else k = 0"
    using extendedCheck_loop_unlimited [of threshold 0 0 s] by blast
  from k(3) assms have pos: "0 < k" and below: "sum_list (d20_draws (k - 1) s) < threshold"
    by simp_all
  have pred: "nat (int k - 1) = k - 1" by simp
  have ret: "extendedCheck threshold None s = Inr ((Success, int k), s\<lparr>pos := pos s + nat (int k)\<rparr>)"
    using k(1) by (simp add: extendedCheck_def)
  have a: "0 < int k" using pos by simp
  have b: "threshold \<le> sum_list (d20_draws (nat (int k)) s)" using k(2) by simp
  have c: "sum_list (d20_draws (nat (int k - 1)) s) < threshold" using below pred by simp
  show ?thesis using ret a b c by blast
qed

theorem extendedCheck_unlimited_succeeds_witness:
  "(0::int) < 30
   \<and> extendedCheck 30 None (rng_at 0) = Inr ((Success, 3), rng_at 3)
   \<and> 30 \<le> sum_list (d20_draws 3 (rng_at 0))
   \<and> sum_list (d20_draws 2 (rng_at 0)) < 30"
proof -
  have t: "(0::int) < 30" by simp
  have ev: "extendedCheck 30 None (rng_at 0) = Inr ((Success, 3), rng_at 3)"
    by (simp add: extendedCheck_def extendedCheck_loop.simps d20_def eval_rules)
  obtain n s' where h:
    "extendedCheck 30 None (rng_at 0) = Inr ((Success, n), s')"
    "30 \<le> sum_list (d20_draws (nat n) (rng_at 0))"
    "sum_list (d20_draws (nat (n - 1)) (rng_at 0)) < 30"
    using extendedCheck_unlimited_succeeds [OF t, of "rng_at 0"] by blast
  from h(1) ev have "n = 3" by simp
  with h(2,3) ev show ?thesis by simp
qed

text \<open>
  C5. For every attribute score, threshold, advantage and \<open>maxRolls\<close>, and on the same
  random-source state, the attribute's \<open>check\<close> returns what the plain \<open>check\<close> returns
  for the threshold \<open>threshold - (score - 10)\<close>, and the attribute's \<open>extendedCheck\<close>
  returns what the plain \<open>extendedCheck\<close> returns for that threshold.
\<close>

theorem Attribute_checks_shift_threshold:
  "Attribute_check self threshold adv s = check (threshold - (score self - 10)) adv s
   \<and> Attribute_extendedCheck self threshold maxRolls s
       = extendedCheck (threshold - (score self - 10)) maxRolls s"
  by (simp add: Attribute_check_def Attribute_extendedCheck_def modifier_def)

theorem Attribute_checks_shift_threshold_witness:
  "Attribute_check (Strength 14) 15 0 (rng_at 0) = check 11 0 (rng_at 0)
   \<and> Attribute_extendedCheck (Strength 14) 34 (Some 2) (rng_at 1)
       = extendedCheck 30 (Some 2) (rng_at 1)"
  using Attribute_checks_shift_threshold [of "Strength 14" 15 0 "rng_at 0"]
    Attribute_checks_shift_threshold [of "Strength 14" 34 0 "rng_at 1" "Some 2"]
  by (simp add: Strength_def)

text \<open>
  C6, as the specification states it: for every count \<open>\<le> 0\<close> the damage roll fails with
  an InvalidArgument error. The code has no such check: at count \<open>-2\<close> with
  \<open>critical\<close> set it returns \<open>-12\<close>.
\<close>

theorem d6_nonpositive_count_counterexample:
  "d6 (- 2) True (rng_at 0) = Inr (- 12, rng_at 0)"
  by (simp add: d6_def)

text \<open>
  C6, amended: for every count \<open>\<le> 0\<close> and either value of \<open>critical\<close>, the damage roll
  raises no error; it returns an integer to the caller.
\<close>

theorem d6_nonpositive_count_returns:
  "count \<le> 0 \<Longrightarrow> \<exists>v s'. d6 count critical s = Inr (v, s')"
  by (rule d6_total)

theorem d6_nonpositive_count_returns_witness:
  "(0::int) \<le> 0 \<and> (\<exists>v s'. d6 0 False (rng_at 0) = Inr (v, s'))"
proof -
  have c: "(0::int) \<le> 0" by simp
  show ?thesis using c d6_nonpositive_count_returns [OF c, of False "rng_at 0"] by simp
qed

text \<open>
  C7, as the specification states it: for every threshold \<open>\<le> 0\<close> the extended check
  fails with an InvalidArgument error. The code has no such check: at threshold \<open>-5\<close>
  it returns \<open>(Success, 0)\<close>.
\<close>

theorem extendedCheck_nonpositive_threshold_counterexample:
  "extendedCheck (- 5) (Some 3) (rng_at 0) = Inr ((Success, 0), rng_at 0)"
  by (simp add: extendedCheck_def extendedCheck_loop.simps)

text \<open>
  C7, amended: for every threshold \<open>\<le> 0\<close> and every \<open>maxRolls\<close>, the extended check
  raises no error; it returns to the caller with the outcome \<open>Success\<close>.
\<close>

theorem extendedCheck_nonpositive_threshold_returns:
  "threshold \<le> 0 \<Longrightarrow> \<exists>n s'. extendedCheck threshold maxRolls s = Inr ((Success, n), s')"
  by (simp add: extendedCheck_def extendedCheck_loop_reached)

theorem extendedCheck_nonpositive_threshold_returns_witness:
  "(0::int) \<le> 0 \<and> (\<exists>n s'. extendedCheck 0 None (rng_at 0) = Inr ((Success, n), s'))"
proof -
  have c: "(0::int) \<le> 0" by simp
  show ?thesis
    using c extendedCheck_nonpositive_threshold_returns [OF c, of None "rng_at 0"] by simp
qed

text \<open>
  C8. For every seed and every sequence of calls to \<open>d20\<close>, \<open>d6\<close>, \<open>check\<close> and
  \<open>extendedCheck\<close>: seeding the random source with that seed and running the sequence
  gives the same return values, and leaves the generator in the same state (so the
  same draws were made), whatever the generator state was before the seeding; in
  particular when it is done a second time after the first run. No call of the
  sequence fails.
\<close>

theorem reseeding_reproduces_session:
  "\<exists>rs s1. perform_all calls (setSeed seeding seed s) = Inr (rs, s1)
     \<and> perform_all calls (setSeed seeding seed s') = Inr (rs, s1)"
proof -
  have same: "setSeed seeding seed s' = setSeed seeding seed s"
    by (simp add: setSeed_def)
  obtain rs s1 where "perform_all calls (setSeed seeding seed s) = Inr (rs, s1)"
    using perform_all_total [of calls "setSeed seeding seed s"] by blast
  with same show ?thesis by simp
qed

theorem reseeding_reproduces_session_witness:
  "perform_all [CallD20 2, CallCheck 10 0] (setSeed example_seeding 0 (rng_at 2))
     = Inr ([Roll 15, Checked CriticalFail], rng_at 4)
   \<and> perform_all [CallD20 2, CallCheck 10 0] (setSeed example_seeding 0 (rng_at 4))
     = Inr ([Roll 15, Checked CriticalFail], rng_at 4)"
proof -
  have first: "perform_all [CallD20 2, CallCheck 10 0] (setSeed example_seeding 0 (rng_at 2))
     = Inr ([Roll 15, Checked CriticalFail], rng_at 4)"
    by (simp add: setSeed_at check_def d20_def eval_rules)
  obtain rs s1 where h:
    "perform_all [CallD20 2, CallCheck 10 0] (setSeed example_seeding 0 (rng_at 2)) = Inr (rs, s1)"
    "perform_all [CallD20 2, CallCheck 10 0] (setSeed example_seeding 0 (rng_at 4)) = Inr (rs, s1)"
    using reseeding_reproduces_session
      [of "[CallD20 2, CallCheck 10 0]" example_seeding 0 "rng_at 2" "rng_at 4"]
    by blast
  from h(1) first have "rs = [Roll 15, Checked CriticalFail]" and "s1 = rng_at 4" by simp_all
  with h(2) first show ?thesis by simp
qed

text \<open>
  C9. For every threshold \<open>\<le> 0\<close> and every \<open>maxRolls\<close> (also none), \<open>extendedCheck\<close>
  raises no error, draws no die (the random source is left as it was) and returns the
  pair \<open>(Success, 0)\<close>.
\<close>

theorem extendedCheck_threshold_already_reached:
  "threshold \<le> 0 \<Longrightarrow> extendedCheck threshold maxRolls s = Inr ((Success, 0), s)"
  by (simp add: extendedCheck_def extendedCheck_loop_reached)

theorem extendedCheck_threshold_already_reached_witness:
  "(- 7::int) \<le> 0 \<and> extendedCheck (- 7) (Some 0) (rng_at 2) = Inr ((Success, 0), rng_at 2)"
proof -
  have c: "(- 7::int) \<le> 0" by simp
  show ?thesis
    using c extendedCheck_threshold_already_reached [OF c, of "Some 0" "rng_at 2"] by simp
qed

text \<open>
  C10. For every count \<open>\<le> 0\<close>, \<open>d6\<close> raises no error and draws no die: it returns 0
  when \<open>critical\<close> is false and \<open>6 * count\<close>, which is zero or negative, when
  \<open>critical\<close> is true.
\<close>

theorem d6_without_dice:
  "count \<le> 0 \<Longrightarrow>
   d6 count critical s = Inr (if critical then 6 * count else 0, s) \<and> 6 * count \<le> 0"
  by (simp add: d6_no_dice mult.commute)

theorem d6_without_dice_witness:
  "(- 3::int) \<le> 0 \<and> d6 (- 3) True (rng_at 1) = Inr (- 18, rng_at 1)
   \<and> d6 (- 3) False (rng_at 1) = Inr (0, rng_at 1)"
proof -
  have c: "(- 3::int) \<le> 0" by simp
  show ?thesis
    using c d6_without_dice [OF c, of True "rng_at 1"]
      d6_without_dice [OF c, of False "rng_at 1"]
    by simp
qed

end
